theory Spec2Isabelle
  imports Main "HOL-Library.Word"
begin

section \<open>The plugin updater of the satori agent (agent/plugins/update.go)\<close>

text \<open>
  The Go file is embedded function by function. Strings are byte strings (\<open>string\<close>),
  byte slices are lists of 8-bit words. A Go \<open>error\<close> return becomes a value of
  \<open>result\<close>; a run-time panic (an index out of range) is the third outcome \<open>Panic\<close>.
\<close>

type_synonym byte = "8 word"

subsection \<open>Errors and results\<close>

text \<open>
  One constructor per \<open>fmt.Errorf\<close> of the file; the text of an underlying process or
  library error is carried as a string.
\<close>

datatype error =
    PluginNotEnabled
  | PreviousUpdateInflight
  | PreviousUpdateTooRecent
  | CantInitRepo string
  | CantSetRemote string
  | FetchError string
  | CantGetContent string
  | CantFindTreeHash
  | SignatureNotFound
  | SigningKeyUntrusted
  | CorruptInput
  | SignatureInvalid
  | KeyFileDoesNotExist
  | CantGetRecentHash string
  | ReadFileError string
  | ResetHardFailed string
  | ExecutableError string
  | OpenError string
  | CopyError string
  | ScriptError
  | CantDoExec

datatype 'a result = Ok 'a | Err error | Panic

subsection \<open>Library functions the file calls\<close>

text \<open>
  The functions of the Go standard library and of the Ed25519 package are parameters of
  the model: every theorem below holds for any implementation of them.
  \<open>DecodeString\<close> is \<open>base64.StdEncoding.DecodeString\<close> (\<open>None\<close> is its
  \<open>CorruptInputError\<close>), \<open>Verify\<close> is \<open>ed25519.Verify\<close> on the 32-byte key, the
  message and the 64-byte signature, \<open>Sum256\<close> is the SHA-256 digest of a file's bytes,
  \<open>Join\<close> is \<open>path.Join\<close>.
\<close>

record lib =
  TrimSpace :: "string \<Rightarrow> string"
  Fields :: "string \<Rightarrow> string list"
  DecodeString :: "string \<Rightarrow> byte list option"
  Verify :: "byte list \<Rightarrow> string \<Rightarrow> byte list \<Rightarrow> bool"
  Sum256 :: "byte list \<Rightarrow> byte list"
  Join :: "string \<Rightarrow> string \<Rightarrow> string"

text \<open>\<open>strings.HasPrefix\<close> and \<open>strings.Split\<close> with a one-byte separator, on bytes.\<close>

definition HasPrefix :: "string \<Rightarrow> string \<Rightarrow> bool" where
  "HasPrefix s p = (take (length p) s = p)"

fun Split :: "string \<Rightarrow> char \<Rightarrow> string list" where
  "Split [] sep = [[]]"
| "Split (c # cs) sep =
     (if c = sep then [] # Split cs sep
      else (case Split cs sep of [] \<Rightarrow> [[c]] | y # ys \<Rightarrow> (c # y) # ys))"

text \<open>
  \<open>copy(buf[:], slice)\<close> into a zero-initialised array of \<open>n\<close> bytes: the first
  \<open>min n (length slice)\<close> bytes are overwritten, the rest stay zero.
\<close>

definition copy_into :: "nat \<Rightarrow> byte list \<Rightarrow> byte list" where
  "copy_into n bs = take n bs @ replicate (n - length bs) 0"

subsection \<open>The outside world\<close>

text \<open>
  Configuration, clock, file system and the \<open>git\<close> subprocesses are read from a record of
  answers. A command's answer is \<open>None\<close> (exit status 0) or the error text; a command
  with output answers \<open>Inr\<close> the output or \<open>Inl\<close> the error text. The two readings of
  \<open>time.Now().Unix()\<close> (guard check, fetch) are 64-bit signed integers.
\<close>

record world =
  cfg_Enabled :: bool
  cfg_CheckoutPath :: string
  cfg_Git :: string
  cfg_SigningKeys :: "string list"
  cfg_AltSigningKeysFile :: string
  now_at_guard :: "64 word"
  now_at_fetch :: "64 word"
  parentDir_exists :: bool
  checkoutPath_exists :: bool
  git_init :: "string option"
  git_remote_add :: "string option"
  git_fetch :: "string option"
  git_cat_file :: "string \<Rightarrow> string + string"
  git_rev_list :: "string \<Rightarrow> string \<Rightarrow> string + string"
  keyFile_exists :: bool
  keyFile_read :: "string + string"
  git_reset_hard :: "string \<Rightarrow> string option"

text \<open>
  Every subprocess, directory creation or removal and metrics report is logged as an
  event, together with the value the in-flight flag has while it runs.
\<close>

datatype event =
    MkdirAll
  | GitInit
  | GitRemoteAdd
  | RemoveAll
  | GitFetch
  | GitRevList string string
  | GitCatFile string
  | GitResetHard string
  | ReportFailure string

text \<open>
  The package variables \<open>updateInflight\<close> and \<open>lastPluginUpdate\<close>, the revision the
  working copy is at (\<open>None\<close> when there is no repository), and the log of events.
\<close>

record ustate =
  updateInflight :: bool
  lastPluginUpdate :: "64 word"
  workingCopy :: "string option"
  trace :: "(event \<times> bool) list"

definition run :: "event \<Rightarrow> ustate \<Rightarrow> ustate" where
  "run ev s = s\<lparr>trace := trace s @ [(ev, updateInflight s)]\<rparr>"

definition reportFailure :: "string \<Rightarrow> ustate \<Rightarrow> ustate" where
  "reportFailure subject s = run (ReportFailure subject) s"

subsection \<open>verifySignature\<close>

text \<open>
  The inner loop over \<open>validKeys\<close>: the first key with prefix \<open>keyid\<close> sets \<open>key\<close> to
  its first field and ends the loop; \<open>strings.Fields(k)[0]\<close> panics when \<open>k\<close> has no
  field. With no match \<open>key\<close> keeps its value.
\<close>

fun matchKey :: "lib \<Rightarrow> string list \<Rightarrow> string \<Rightarrow> string \<Rightarrow> string result" where
  "matchKey L [] keyid key = Ok key"
| "matchKey L (k # ks) keyid key =
     (if HasPrefix k keyid
      then (case Fields L k of [] \<Rightarrow> Panic | f # _ \<Rightarrow> Ok f)
      else matchKey L ks keyid key)"

text \<open>
  The loop over the lines of the commit object, on the variables
  \<open>(tree, key, sign)\<close>. \<open>a[1]\<close> panics when the signature line has no colon.
\<close>

fun scanLines ::
  "lib \<Rightarrow> string list \<Rightarrow> string list \<Rightarrow> string \<times> string \<times> string
     \<Rightarrow> (string \<times> string \<times> string) result" where
  "scanLines L validKeys [] v = Ok v"
| "scanLines L validKeys (l # ls) (tree, key, sign) =
     (if HasPrefix l ''tree ''
      then scanLines L validKeys ls (TrimSpace L (drop (length ''tree '') l), key, sign)
      else if HasPrefix l ''satori-sign ''
      then (let s = TrimSpace L (drop (length ''satori-sign '') l);
                a = Split s CHR '':''
            in case a of
                 [] \<Rightarrow> Panic
               | keyid # rest \<Rightarrow>
                   (case matchKey L validKeys keyid key of
                      Panic \<Rightarrow> Panic
                    | Err e \<Rightarrow> Err e
                    | Ok key' \<Rightarrow>
                        (case rest of
                           [] \<Rightarrow> Panic
                         | sign' # _ \<Rightarrow> scanLines L validKeys ls (tree, key', sign'))))
      else scanLines L validKeys ls (tree, key, sign))"

text \<open>
  The value the loop leaves in \<open>tree\<close> when it starts from \<open>t\<close> and runs to the end of
  the lines: the trimmed rest of the last tree line, \<open>t\<close> when there is none.
\<close>

fun treeAfter :: "lib \<Rightarrow> string list \<Rightarrow> string \<Rightarrow> string" where
  "treeAfter L [] t = t"
| "treeAfter L (l # ls) t =
     treeAfter L ls (if HasPrefix l ''tree '' then TrimSpace L (drop (length ''tree '') l) else t)"

text \<open>The checks and the verification after the loop (lines 241 to 267).\<close>

definition checkFields :: "lib \<Rightarrow> string \<times> string \<times> string \<Rightarrow> unit result" where
  "checkFields L v =
     (case v of (tree, key, sign) \<Rightarrow>
        if tree = [] then Err CantFindTreeHash
        else if sign = [] then Err SignatureNotFound
        else if key = [] then Err SigningKeyUntrusted
        else (case DecodeString L key of
                None \<Rightarrow> Err CorruptInput
              | Some vkslice \<Rightarrow>
                  (case DecodeString L sign of
                     None \<Rightarrow> Err CorruptInput
                   | Some signslice \<Rightarrow>
                       if \<not> Verify L (copy_into 32 vkslice) tree (copy_into 64 signslice)
                       then Err SignatureInvalid
                       else Ok ())))"

text \<open>Everything after \<open>content := buf.String()\<close>.\<close>

definition verifyContent :: "lib \<Rightarrow> string \<Rightarrow> string list \<Rightarrow> unit result" where
  "verifyContent L content validKeys =
     (case scanLines L validKeys (Split content CHR 0x0A) ([], [], []) of
        Panic \<Rightarrow> Panic
      | Err e \<Rightarrow> Err e
      | Ok v \<Rightarrow> checkFields L v)"

definition verifySignature ::
  "lib \<Rightarrow> world \<Rightarrow> string \<Rightarrow> string list \<Rightarrow> ustate \<Rightarrow> unit result \<times> ustate" where
  "verifySignature L w head validKeys s =
     (let s1 = run (GitCatFile head) s
      in case git_cat_file w head of
           Inl msg \<Rightarrow> (Err (CantGetContent msg), s1)
         | Inr content \<Rightarrow> (verifyContent L content validKeys, s1))"

subsection \<open>getAltSigningKeys\<close>

text \<open>The loop over the lines of the keys file: comment lines and blank lines are skipped.\<close>

fun keyLines :: "lib \<Rightarrow> string list \<Rightarrow> string list" where
  "keyLines L [] = []"
| "keyLines L (l # ls) =
     (let l' = TrimSpace L l
      in if HasPrefix l' ''#'' \<or> l' = [] then keyLines L ls else l' # keyLines L ls)"

definition getAltSigningKeys ::
  "lib \<Rightarrow> world \<Rightarrow> string \<Rightarrow> string \<Rightarrow> string list \<Rightarrow> ustate
     \<Rightarrow> string list result \<times> ustate" where
  "getAltSigningKeys L w head keyFile validKeys s =
     (if \<not> keyFile_exists w then (Err KeyFileDoesNotExist, s)
      else
        let s1 = run (GitRevList head keyFile) s
        in case git_rev_list w head keyFile of
             Inl msg \<Rightarrow> (Err (CantGetRecentHash msg), s1)
           | Inr out \<Rightarrow>
               (let mostRecentHash = TrimSpace L out
                in case verifySignature L w mostRecentHash validKeys s1 of
                     (Err e, s2) \<Rightarrow> (Err e, s2)
                   | (Panic, s2) \<Rightarrow> (Panic, s2)
                   | (Ok _, s2) \<Rightarrow>
                       (case keyFile_read w of
                          Inl msg \<Rightarrow> (Err (ReadFileError msg), s2)
                        | Inr content \<Rightarrow>
                            (Ok (keyLines L (Split content CHR 0x0A)), s2))))"

subsection \<open>ensureGitRepo, updateByFetch, checkoutCommit\<close>

definition ensureGitRepo :: "world \<Rightarrow> ustate \<Rightarrow> unit result \<times> ustate" where
  "ensureGitRepo w s =
     (if \<not> checkoutPath_exists w
      then
        let s1 = run GitInit s
        in case git_init w of
             Some msg \<Rightarrow> (Err (CantInitRepo msg), s1)
           | None \<Rightarrow>
               (let s2 = run GitRemoteAdd s1
                in case git_remote_add w of
                     Some msg \<Rightarrow>
                       (Err (CantSetRemote msg), (run RemoveAll s2)\<lparr>workingCopy := None\<rparr>)
                   | None \<Rightarrow> (Ok (), s2))
      else (Ok (), s))"

text \<open>
  The deferred function runs when \<open>updateByFetch\<close> returns, on either branch: the flag
  is false again in the state the caller continues with.
\<close>

definition updateByFetch :: "world \<Rightarrow> ustate \<Rightarrow> unit result \<times> ustate" where
  "updateByFetch w s =
     (let s1 = s\<lparr>updateInflight := True\<rparr>;
          s2 = s1\<lparr>lastPluginUpdate := now_at_fetch w\<rparr>;
          s3 = run GitFetch s2;
          r = (case git_fetch w of Some msg \<Rightarrow> Err (FetchError msg) | None \<Rightarrow> Ok ())
      in (r, s3\<lparr>updateInflight := False\<rparr>))"

definition checkoutCommit :: "world \<Rightarrow> string \<Rightarrow> ustate \<Rightarrow> unit result \<times> ustate" where
  "checkoutCommit w head s =
     (let s1 = run (GitResetHard head) s
      in case git_reset_hard w head of
           Some msg \<Rightarrow> (Err (ResetHardFailed msg), s1)
         | None \<Rightarrow> (Ok (), s1\<lparr>workingCopy := Some head\<rparr>))"

subsection \<open>UpdatePlugin\<close>

text \<open>
  The block that computes \<open>keys\<close> when signing keys are configured (lines 124 to 138):
  a failure of \<open>getAltSigningKeys\<close> is reported and the configured keys are used alone.
\<close>

definition resolveKeys ::
  "lib \<Rightarrow> world \<Rightarrow> string \<Rightarrow> ustate \<Rightarrow> string list result \<times> ustate" where
  "resolveKeys L w ver s =
     (if cfg_AltSigningKeysFile w \<noteq> []
      then (case getAltSigningKeys L w ver (cfg_AltSigningKeysFile w) (cfg_SigningKeys w) s of
              (Err e, s1) \<Rightarrow> (Ok (cfg_SigningKeys w), reportFailure ''alt-key-fail'' s1)
            | (Panic, s1) \<Rightarrow> (Panic, s1)
            | (Ok altKeys, s1) \<Rightarrow> (Ok (altKeys @ cfg_SigningKeys w), s1))
      else (Ok (cfg_SigningKeys w), s))"

text \<open>The last step (lines 148 to 154).\<close>

definition checkoutStep :: "world \<Rightarrow> string \<Rightarrow> ustate \<Rightarrow> unit result \<times> ustate" where
  "checkoutStep w ver s =
     (case checkoutCommit w ver s of
        (Err e, s1) \<Rightarrow> (Err e, reportFailure ''git-fail'' s1)
      | (Panic, s1) \<Rightarrow> (Panic, s1)
      | (Ok _, s1) \<Rightarrow> (Ok (), s1))"

text \<open>The part after the fetch (lines 123 to 154).\<close>

definition verifyAndCheckout ::
  "lib \<Rightarrow> world \<Rightarrow> string \<Rightarrow> ustate \<Rightarrow> unit result \<times> ustate" where
  "verifyAndCheckout L w ver s =
     (if cfg_SigningKeys w \<noteq> []
      then (case resolveKeys L w ver s of
              (Err e, s1) \<Rightarrow> (Err e, s1)
            | (Panic, s1) \<Rightarrow> (Panic, s1)
            | (Ok keys, s1) \<Rightarrow>
                (case verifySignature L w ver keys s1 of
                   (Err e, s2) \<Rightarrow> (Err e, reportFailure ''signature-fail'' s2)
                 | (Panic, s2) \<Rightarrow> (Panic, s2)
                 | (Ok _, s2) \<Rightarrow> checkoutStep w ver s2))
      else checkoutStep w ver s)"

definition UpdatePlugin :: "lib \<Rightarrow> world \<Rightarrow> string \<Rightarrow> ustate \<Rightarrow> unit result \<times> ustate" where
  "UpdatePlugin L w ver0 s =
     (if \<not> cfg_Enabled w then (Err PluginNotEnabled, s)
      else if updateInflight s then (Err PreviousUpdateInflight, s)
      else if sint (now_at_guard w - lastPluginUpdate s) < 300
      then (Err PreviousUpdateTooRecent, s)
      else
        let s1 = (if \<not> parentDir_exists w then run MkdirAll s else s);
            ver = (if ver0 = [] then ''origin/master'' else ver0)
        in case ensureGitRepo w s1 of
             (Err e, s2) \<Rightarrow> (Err e, reportFailure ''git-fail'' s2)
           | (Panic, s2) \<Rightarrow> (Panic, s2)
           | (Ok _, s2) \<Rightarrow>
               (case updateByFetch w s2 of
                  (Err e, s3) \<Rightarrow> (Err e, reportFailure ''git-fail'' s3)
                | (Panic, s3) \<Rightarrow> (Panic, s3)
                | (Ok _, s3) \<Rightarrow> verifyAndCheckout L w ver s3))"

subsection \<open>TrySelfUpdate\<close>

text \<open>
  What \<open>TrySelfUpdate\<close> reads from its host: configuration, the path of the running
  executable, file existence, opening and reading a file, and the outcome of each command
  of the shell script and of \<open>syscall.Exec\<close> (\<open>True\<close> is success).

  The script assigns the three paths inside double quotes and expands them unquoted in
  \<open>rm -f $RENAME\<close>, \<open>mv $SELF $RENAME\<close> and \<open>cp -a $NEW $SELF\<close>. Its commands are
  modelled when each path is a plain word (\<open>plainWord\<close>); for any other path the shell
  may split the word, match it as a pattern, read it as an option or expand it in the
  assignment, and what the script then does is an answer of the host (\<open>bash_c\<close>), of which
  nothing is assumed.
\<close>

datatype fsop = Rm string | Mv string string | Cp string string | Exec string | Other string

record host =
  cfg_SelfUpdate :: bool
  cfg_PluginCheckoutPath :: string
  osext_Executable :: "string + string"
  file_IsExist :: "string \<Rightarrow> bool"
  os_Open :: "string \<Rightarrow> string option"
  io_Copy :: "string \<Rightarrow> string + byte list"
  test_f :: "string \<Rightarrow> bool"
  rm_f :: bool
  mv :: bool
  cp_a :: bool
  syscall_Exec :: bool
  bash_c :: "string \<Rightarrow> string \<Rightarrow> string \<Rightarrow> bool \<times> fsop list"


text \<open>How a call ends: it returns, or the process image is replaced and it never returns.\<close>

datatype exit = Return "unit result" | NewImage

definition hexdigit :: "nat \<Rightarrow> char" where
  "hexdigit n = ''0123456789abcdef'' ! n"

definition EncodeToString :: "byte list \<Rightarrow> string" where
  "EncodeToString bs = concat (map (\<lambda>b. [hexdigit (unat b div 16), hexdigit (unat b mod 16)]) bs)"

text \<open>
  A plain word: not empty, not starting with a dash, made of ASCII letters, digits, slash,
  dot, underscore and dash. The shell leaves such a word as it is, in the assignment and
  in the unquoted expansion, and no command reads it as an option.
\<close>

definition plainChar :: "char \<Rightarrow> bool" where
  "plainChar c =
     (let n = (of_char c :: nat)
      in (48 \<le> n \<and> n \<le> 57) \<or> (65 \<le> n \<and> n \<le> 90) \<or> (97 \<le> n \<and> n \<le> 122)
         \<or> n = 47 \<or> n = 46 \<or> n = 95 \<or> n = 45)"

definition plainWord :: "string \<Rightarrow> bool" where
  "plainWord p = (p \<noteq> [] \<and> \<not> HasPrefix p ''-'' \<and> list_all plainChar p)"

text \<open>
  The script, under \<open>set -e\<close>: it stops at the first command that fails. It returns
  whether it ran to its end and the commands it started.
\<close>

definition swapScript :: "host \<Rightarrow> string \<Rightarrow> string \<Rightarrow> string \<Rightarrow> bool \<times> fsop list" where
  "swapScript h SELF RENAME NEW =
     (if \<not> (plainWord SELF \<and> plainWord RENAME \<and> plainWord NEW)
      then bash_c h SELF RENAME NEW
      else if \<not> test_f h NEW then (False, [])
      else
        let stale = test_f h RENAME;
            ops1 = (if stale then [Rm RENAME] else [])
        in if stale \<and> \<not> rm_f h then (False, ops1)
           else if \<not> mv h then (False, ops1 @ [Mv SELF RENAME])
           else if \<not> cp_a h then (False, ops1 @ [Mv SELF RENAME, Cp NEW SELF])
           else (True, ops1 @ [Mv SELF RENAME, Cp NEW SELF]))"

definition TrySelfUpdate :: "lib \<Rightarrow> host \<Rightarrow> exit \<times> fsop list" where
  "TrySelfUpdate L h =
     (if \<not> cfg_SelfUpdate h then (Return (Ok ()), [])
      else case osext_Executable h of
        Inl msg \<Rightarrow> (Return (Err (ExecutableError msg)), [])
      | Inr selfPath \<Rightarrow>
          let newPath = Join L (cfg_PluginCheckoutPath h) ''satori-agent''
          in if \<not> file_IsExist h newPath then (Return (Ok ()), [])
             else case os_Open h selfPath of
               Some msg \<Rightarrow> (Return (Err (OpenError msg)), [])
             | None \<Rightarrow>
                 (case io_Copy h selfPath of
                    Inl msg \<Rightarrow> (Return (Err (CopyError msg)), [])
                  | Inr selfBytes \<Rightarrow>
                      (let selfHash = Sum256 L selfBytes
                       in case os_Open h newPath of
                            Some msg \<Rightarrow> (Return (Err (OpenError msg)), [])
                          | None \<Rightarrow>
                              (case io_Copy h newPath of
                                 Inl msg \<Rightarrow> (Return (Err (CopyError msg)), [])
                               | Inr newBytes \<Rightarrow>
                                   (let newHash = Sum256 L newBytes
                                    in if selfHash = newHash then (Return (Ok ()), [])
                                       else
                                         (case swapScript h selfPath
                                                 (selfPath @ ''.'' @ EncodeToString selfHash)
                                                 newPath of
                                            (False, ops) \<Rightarrow> (Return (Err ScriptError), ops)
                                          | (True, ops) \<Rightarrow>
                                              if syscall_Exec h
                                              then (NewImage, ops @ [Exec selfPath])
                                              else (Return (Err CantDoExec),
                                                    ops @ [Exec selfPath])))))))"

text \<open>The renames and the copies among the commands that were started.\<close>

fun isRename :: "fsop \<Rightarrow> bool" where
  "isRename (Mv a b) = True"
| "isRename _ = False"

fun isCopy :: "fsop \<Rightarrow> bool" where
  "isCopy (Cp a b) = True"
| "isCopy _ = False"

subsection \<open>An instance of the library for the examples\<close>

text \<open>
  The examples run on ASCII text: white space is tab, line feed, vertical tab, form feed,
  carriage return and space.
\<close>

definition isSpace :: "char \<Rightarrow> bool" where
  "isSpace c = (c \<in> set [CHR 0x09, CHR 0x0A, CHR 0x0B, CHR 0x0C, CHR 0x0D, CHR '' ''])"

definition ascii_TrimSpace :: "string \<Rightarrow> string" where
  "ascii_TrimSpace s = rev (dropWhile isSpace (rev (dropWhile isSpace s)))"

fun fields_from :: "string \<Rightarrow> string \<Rightarrow> string list" where
  "fields_from cur [] = (if cur = [] then [] else [cur])"
| "fields_from cur (c # cs) =
     (if isSpace c then (if cur = [] then fields_from [] cs else cur # fields_from [] cs)
      else fields_from (cur @ [c]) cs)"

definition ascii_Fields :: "string \<Rightarrow> string list" where
  "ascii_Fields s = fields_from [] s"

text \<open>Base64 with the standard alphabet and padding; CR and LF are skipped.\<close>

definition b64val :: "char \<Rightarrow> nat option" where
  "b64val c =
     (let n = (of_char c :: nat)
      in if 65 \<le> n \<and> n \<le> 90 then Some (n - 65)
         else if 97 \<le> n \<and> n \<le> 122 then Some (n - 71)
         else if 48 \<le> n \<and> n \<le> 57 then Some (n + 4)
         else if n = 43 then Some 62
         else if n = 47 then Some 63
         else None)"

fun b64groups :: "string \<Rightarrow> byte list option" where
  "b64groups [] = Some []"
| "b64groups (a # b # c # d # rest) =
     (case (b64val a, b64val b) of
        (Some x, Some y) \<Rightarrow>
          if c = CHR ''='' \<and> d = CHR ''='' \<and> rest = []
          then Some [of_nat (x * 4 + y div 16)]
          else (case b64val c of
                  None \<Rightarrow> None
                | Some z \<Rightarrow>
                    if d = CHR ''='' \<and> rest = []
                    then Some [of_nat (x * 4 + y div 16), of_nat ((y mod 16) * 16 + z div 4)]
                    else (case b64val d of
                            None \<Rightarrow> None
                          | Some u \<Rightarrow>
                              (case b64groups rest of
                                 None \<Rightarrow> None
                               | Some bs \<Rightarrow>
                                   Some (of_nat (x * 4 + y div 16)
                                         # of_nat ((y mod 16) * 16 + z div 4)
                                         # of_nat ((z mod 4) * 64 + u) # bs))))
      | _ \<Rightarrow> None)"
| "b64groups _ = None"

definition base64_std :: "string \<Rightarrow> byte list option" where
  "base64_std s = b64groups (filter (\<lambda>c. c \<noteq> CHR 0x0D \<and> c \<noteq> CHR 0x0A) s)"

text \<open>
  The Ed25519 test vector with the one-byte message \<open>r\<close> (RFC 8032, section 7.1, test 2):
  public key and signature. The example verifier accepts exactly this triple.
\<close>

definition tv_key :: "byte list" where
  "tv_key = [61, 64, 23, 195, 232, 67, 137, 90, 146, 183, 10, 167, 77, 27, 126, 188,
             156, 152, 44, 207, 46, 196, 150, 140, 192, 205, 85, 241, 42, 244, 102, 12]"

definition tv_sig :: "byte list" where
  "tv_sig = [146, 160, 9, 169, 240, 212, 202, 184, 114, 14, 130, 11, 95, 100, 37, 64,
             162, 178, 123, 84, 22, 80, 63, 143, 179, 118, 34, 35, 235, 219, 105, 218,
             8, 90, 193, 228, 62, 21, 153, 110, 69, 143, 54, 19, 208, 241, 29, 140,
             56, 123, 46, 174, 180, 48, 42, 238, 176, 13, 41, 22, 18, 187, 12, 0]"

definition tv_Verify :: "byte list \<Rightarrow> string \<Rightarrow> byte list \<Rightarrow> bool" where
  "tv_Verify vk msg sg = (vk = tv_key \<and> msg = ''r'' \<and> sg = tv_sig)"

text \<open>
  In the examples the digest of a file is its own bytes (the examples only compare
  digests of one-byte files) and \<open>Join\<close> puts a slash between its arguments.
\<close>

definition ex_lib :: lib where
  "ex_lib = \<lparr>TrimSpace = ascii_TrimSpace, Fields = ascii_Fields,
             DecodeString = base64_std, Verify = tv_Verify,
             Sum256 = (\<lambda>bs. bs), Join = (\<lambda>a b. a @ ''/'' @ b)\<rparr>"

subsection \<open>Example inputs\<close>

text \<open>The test vector's key and signature in base64, and a trusted-key entry for the key.\<close>

definition tv_key64 :: string where
  "tv_key64 = ''PUAXw+hDiVqStwqnTRt+vJyYLM8uxJaMwM1V8Sr0Zgw=''"

definition tv_sig64 :: string where
  "tv_sig64 =
     ''kqAJqfDUyrhyDoILX2QlQKKye1QWUD+Ps3YiI+vbadoIWsHkPhWZbkWPNhPQ8R2MOHsurrQwKu6wDSkWErsMAA==''"

definition root_key :: string where
  "root_key = tv_key64 @ '' root''"

text \<open>A second entry whose text starts with the same four characters as \<open>root_key\<close>.\<close>

definition other_key :: string where
  "other_key = ''PUAXAAAAAAAAAAAAAAAAAAAAAAAAAAAAAAAAAAAAAAA= other''"

text \<open>A commit object with tree \<open>r\<close>, signed with the test vector's key.\<close>

definition signed_commit :: string where
  "signed_commit = ''tree r\<newline>author a <a@example.org> 1 +0000\<newline>satori-sign PUAX:'' @ tv_sig64"

definition idle :: ustate where
  "idle = \<lparr>updateInflight = False, lastPluginUpdate = 0,
           workingCopy = Some ''4f1c'', trace = []\<rparr>"

text \<open>
  A host with an existing repository, \<open>root_key\<close> as its only signing key, no keys file
  configured, every command succeeding, and \<open>commit\<close> as the object of every revision.
\<close>

definition ex_world :: "string \<Rightarrow> world" where
  "ex_world commit =
     \<lparr>cfg_Enabled = True, cfg_CheckoutPath = ''/opt/satori/plugin'',
      cfg_Git = ''https://example.org/plugin.git'', cfg_SigningKeys = [root_key],
      cfg_AltSigningKeysFile = [], now_at_guard = 1000, now_at_fetch = 1001,
      parentDir_exists = True, checkoutPath_exists = True,
      git_init = None, git_remote_add = None, git_fetch = None,
      git_cat_file = (\<lambda>_. Inr commit), git_rev_list = (\<lambda>_ _. Inr ''77aa\<newline>''),
      keyFile_exists = True, keyFile_read = Inr (''# delegated keys\<newline>'' @ other_key @ ''\<newline>''),
      git_reset_hard = (\<lambda>_. None)\<rparr>"

text \<open>
  Three more commit objects: one without a signature line, one whose signature names a
  key that no entry starts with, and one with two signature lines, the first of which
  carries no valid signature.
\<close>

definition unsigned_commit :: string where
  "unsigned_commit = ''tree 5d01\<newline>author a <a@example.org> 1 +0000''"

definition untrusted_commit :: string where
  "untrusted_commit = ''tree r\<newline>satori-sign ZZZZ:'' @ tv_sig64"


text \<open>
  The same host with the keys file \<open>keys.txt\<close> configured; \<open>intro\<close> is the object of
  the revision \<open>77aa\<close> that last changed the keys file, \<open>commit\<close> that of any other.
\<close>

definition alt_world :: "string \<Rightarrow> string \<Rightarrow> world" where
  "alt_world intro commit =
     (ex_world commit)\<lparr>cfg_AltSigningKeysFile := ''keys.txt'',
                        git_cat_file := (\<lambda>h. if h = ''77aa'' then Inr intro else Inr commit)\<rparr>"

text \<open>
  A host for \<open>TrySelfUpdate\<close>: self-update enabled, the running binary holds the byte 1,
  the candidate in the checkout holds the byte 2 and is a regular file, there is no stale
  backup, and every command succeeds.
\<close>

definition ex_host :: host where
  "ex_host =
     \<lparr>cfg_SelfUpdate = True, cfg_PluginCheckoutPath = ''/opt/satori/plugin'',
      osext_Executable = Inr ''/usr/bin/satori-agent'',
      file_IsExist = (\<lambda>_. True), os_Open = (\<lambda>_. None),
      io_Copy = (\<lambda>p. if p = ''/usr/bin/satori-agent'' then Inr [1] else Inr [2]),
      test_f = (\<lambda>p. p = ''/opt/satori/plugin/satori-agent''),
      rm_f = True, mv = True, cp_a = True, syscall_Exec = True,
      bash_c = (\<lambda>_ _ _. (False, []))\<rparr>"

subsection \<open>Describing what a call adds to the log\<close>

text \<open>
  \<open>extends Q s s'\<close>: the log of \<open>s'\<close> is the log of \<open>s\<close> followed by entries that all
  satisfy \<open>Q\<close>. The events other than the fetch and the checkout are \<open>quiet\<close>.
\<close>

definition extends :: "(event \<times> bool \<Rightarrow> bool) \<Rightarrow> ustate \<Rightarrow> ustate \<Rightarrow> bool" where
  "extends Q s s' = (\<exists>evs. trace s' = trace s @ evs \<and> list_all Q evs)"

fun quiet :: "event \<Rightarrow> bool" where
  "quiet GitFetch = False"
| "quiet (GitResetHard h) = False"
| "quiet _ = True"

section \<open>Properties\<close>

subsection \<open>The scan of the commit object\<close>

lemma matchKey_not_Err: "matchKey L ks keyid key \<noteq> Err e"
  by (induction ks) (auto split: list.splits)

lemma scanLines_not_Err: "scanLines L vk ls v \<noteq> Err e"
proof (induction L vk ls v rule: scanLines.induct)
  case (1 L validKeys v)
  then show ?case by simp
next
  case (2 L validKeys l ls tree key sign)
  then show ?case
    by (auto simp: Let_def matchKey_not_Err split: list.splits result.splits)
qed

lemma scanLines_append:
  "scanLines L vk (xs @ ys) v =
     (case scanLines L vk xs v of
        Ok v' \<Rightarrow> scanLines L vk ys v' | Err e \<Rightarrow> Err e | Panic \<Rightarrow> Panic)"
proof (induction L vk xs v rule: scanLines.induct)
  case (1 L validKeys v)
  then show ?case by simp
next
  case (2 L validKeys l ls tree key sign)
  then show ?case
    by (auto simp: Let_def split: list.splits result.splits)
qed

lemma scanLines_tree_kept:
  "\<forall>l \<in> set ls. \<not> HasPrefix l ''tree '' \<Longrightarrow>
   scanLines L vk ls (t, k, sg) = Ok (t', k', sg') \<Longrightarrow> t' = t"
proof (induction ls arbitrary: k sg)
  case Nil
  then show ?case by simp
next
  case (Cons l ls)
  then show ?case
    by (auto simp: Let_def split: list.splits result.splits if_splits)
qed

lemma scanLines_without_sign_line:
  "\<forall>l \<in> set ls. \<not> HasPrefix l ''satori-sign '' \<Longrightarrow>
   \<exists>t'. scanLines L vk ls (t, k, sg) = Ok (t', k, sg)"
proof (induction ls arbitrary: t)
  case Nil
  then show ?case by simp
next
  case (Cons l ls)
  then show ?case
    by (auto simp: Let_def split: list.splits result.splits if_splits)
qed

lemma sign_line_not_tree: "HasPrefix l ''satori-sign '' \<Longrightarrow> \<not> HasPrefix l ''tree ''"
  by (cases l) (auto simp: HasPrefix_def)

text \<open>
  What the loop returns when it ends: \<open>tree\<close> is \<open>treeAfter\<close>, and the last signature
  line decides \<open>sign\<close> and, through \<open>matchKey\<close>, \<open>key\<close>.
\<close>

lemma scanLines_tree:
  "scanLines L vk ls (t, k, sg) = Ok (t', k', sg') \<Longrightarrow> t' = treeAfter L ls t"
proof (induction ls arbitrary: t k sg)
  case Nil
  then show ?case by simp
next
  case (Cons l ls)
  then show ?case
    by (auto simp: Let_def split: list.splits result.splits if_splits)
qed

lemma scanLines_last_sign_line:
  assumes l: "HasPrefix l ''satori-sign ''"
    and a: "Split (TrimSpace L (drop (length ''satori-sign '') l)) CHR '':'' = keyid # sg # rest"
    and before: "scanLines L vk ls (t, k, s0) = Ok (tree, key, sign)"
    and m: "matchKey L vk keyid key = Ok key'"
    and after: "\<forall>l' \<in> set ls'. \<not> HasPrefix l' ''satori-sign ''"
  shows "scanLines L vk (ls @ l # ls') (t, k, s0) = Ok (treeAfter L (ls @ l # ls') t, key', sg)"
proof -
  have nt: "\<not> HasPrefix l ''tree ''" using l by (rule sign_line_not_tree)
  have "scanLines L vk (l # ls') (tree, key, sign) = scanLines L vk ls' (tree, key', sg)"
    using l nt a m by (simp add: Let_def)
  moreover obtain tree' where "scanLines L vk ls' (tree, key', sg) = Ok (tree', key', sg)"
    using scanLines_without_sign_line [OF after] by blast
  ultimately have r: "scanLines L vk (ls @ l # ls') (t, k, s0) = Ok (tree', key', sg)"
    using before by (simp add: scanLines_append)
  then have "tree' = treeAfter L (ls @ l # ls') t" by (rule scanLines_tree)
  with r show ?thesis by simp
qed

lemma matchKey_first:
  "\<forall>k' \<in> set pre. \<not> HasPrefix k' keyid \<Longrightarrow> HasPrefix k keyid \<Longrightarrow> Fields L k = f # fs \<Longrightarrow>
   matchKey L (pre @ k # post) keyid key = Ok f"
  by (induction pre) auto

text \<open>
  Without a tree line the scan leaves \<open>tree\<close> empty: if the loop ends, the first check
  after it fails, whatever \<open>key\<close> and \<open>sign\<close> are.
\<close>

lemma no_tree_line_outcome:
  assumes "\<forall>l \<in> set (Split content CHR 0x0A). \<not> HasPrefix l ''tree ''"
  shows "verifyContent L content vk = Err CantFindTreeHash \<or> verifyContent L content vk = Panic"
proof (cases "scanLines L vk (Split content CHR 0x0A) ([], [], [])")
  case (Ok v)
  obtain t k sg where v: "v = (t, k, sg)" by (cases v)
  with Ok assms have "t = []" using scanLines_tree_kept by blast
  with Ok v show ?thesis by (simp add: verifyContent_def checkFields_def)
next
  case (Err e)
  then show ?thesis using scanLines_not_Err by blast
next
  case Panic
  then show ?thesis by (simp add: verifyContent_def)
qed

subsection \<open>Claims on verifySignature\<close>

text \<open>
  C2. \<open>verifySignature\<close> returns a failure on every malformed text and never panics.
  The code does not: on a text whose \<open>satori-sign\<close> line has no colon, \<open>a[1]\<close> is out of
  range and the call panics.
\<close>

theorem verifySignature_panics_without_colon:
  "fst (verifySignature ex_lib (ex_world ''tree 9f2c\<newline>satori-sign PUAXw+hD'')
          ''origin/master'' [root_key] idle) = Panic"
  by code_simp

text \<open>
  C7. A text with no tree line always fails with the no-tree-hash error. The code panics
  first when such a text has a \<open>satori-sign\<close> line without a colon; when the loop ends
  the error is the no-tree-hash error (\<open>no_tree_line_outcome\<close>).
\<close>

theorem verifySignature_no_tree_line_panics:
  "filter (\<lambda>l. HasPrefix l ''tree '') (Split ''parent 11aa\<newline>satori-sign PUAXw+hD'' CHR 0x0A) = []
   \<and> fst (verifySignature ex_lib (ex_world ''parent 11aa\<newline>satori-sign PUAXw+hD'')
            ''origin/master'' [root_key] idle) = Panic"
  by code_simp

text \<open>
  C10. A key or a signature that decodes to fewer (or more) bytes than the array holds is
  no encoding error: the bytes are copied into the zeroed array, padded with zeros or cut
  at its length, and Ed25519 runs on the result.
\<close>

theorem short_key_or_signature_is_padded:
  assumes "git_cat_file w head = Inr content"
    and "scanLines L validKeys (Split content CHR 0x0A) ([], [], []) = Ok (tree, key, sign)"
    and "tree \<noteq> []" and "sign \<noteq> []" and "key \<noteq> []"
    and "DecodeString L key = Some vkslice"
    and "DecodeString L sign = Some signslice"
  shows "fst (verifySignature L w head validKeys s) =
           (if Verify L (take 32 vkslice @ replicate (32 - length vkslice) 0) tree
                        (take 64 signslice @ replicate (64 - length signslice) 0)
            then Ok () else Err SignatureInvalid)
         \<and> fst (verifySignature L w head validKeys s) \<noteq> Err CorruptInput"
  using assms
  by (simp add: verifySignature_def verifyContent_def checkFields_def copy_into_def Let_def)

theorem short_key_or_signature_is_padded_witness:
  "git_cat_file (ex_world ''tree r\<newline>satori-sign AQ:Ag=='') ''origin/master''
     = Inr ''tree r\<newline>satori-sign AQ:Ag==''
   \<and> scanLines ex_lib [''AQ== short''] (Split ''tree r\<newline>satori-sign AQ:Ag=='' CHR 0x0A) ([], [], [])
     = Ok (''r'', ''AQ=='', ''Ag=='')
   \<and> DecodeString ex_lib ''AQ=='' = Some [1]
   \<and> DecodeString ex_lib ''Ag=='' = Some [2]
   \<and> fst (verifySignature ex_lib (ex_world ''tree r\<newline>satori-sign AQ:Ag=='') ''origin/master''
            [''AQ== short''] idle) = Err SignatureInvalid"
proof -
  have h1: "git_cat_file (ex_world ''tree r\<newline>satori-sign AQ:Ag=='') ''origin/master''
              = Inr ''tree r\<newline>satori-sign AQ:Ag==''"
    by (simp add: ex_world_def)
  have h2: "scanLines ex_lib [''AQ== short''] (Split ''tree r\<newline>satori-sign AQ:Ag=='' CHR 0x0A)
              ([], [], []) = Ok (''r'', ''AQ=='', ''Ag=='')"
    by code_simp
  have h3: "DecodeString ex_lib ''AQ=='' = Some [1]" by code_simp
  have h4: "DecodeString ex_lib ''Ag=='' = Some [2]" by code_simp
  have h5: "\<not> Verify ex_lib (take 32 [1] @ replicate (32 - length [1::byte]) 0) ''r''
                 (take 64 [2] @ replicate (64 - length [2::byte]) 0)"
    by code_simp
  show ?thesis
    using short_key_or_signature_is_padded [OF h1 h2 _ _ _ h3 h4, of idle] h1 h2 h3 h4 h5
    by simp
qed




subsection \<open>Effects on the state\<close>

lemma extends_refl: "extends Q s s"
  by (simp add: extends_def)

lemma extends_trans: "extends Q s s' \<Longrightarrow> extends Q s' s'' \<Longrightarrow> extends Q s s''"
  by (auto simp: extends_def)

lemma extends_run: "Q (ev, updateInflight s) \<Longrightarrow> extends Q s (run ev s)"
  by (simp add: extends_def run_def)

lemma run_fields:
  "updateInflight (run ev s) = updateInflight s"
  "lastPluginUpdate (run ev s) = lastPluginUpdate s"
  "workingCopy (run ev s) = workingCopy s"
  by (simp_all add: run_def)

text \<open>
  \<open>verifySignature\<close>, \<open>getAltSigningKeys\<close> and \<open>resolveKeys\<close> read only: their result
  does not depend on the state, and they add quiet events to the log.
\<close>

lemma verifySignature_iff:
  "verifySignature L w h k s = (r, s') \<longleftrightarrow>
     r = (case git_cat_file w h of Inl msg \<Rightarrow> Err (CantGetContent msg)
                                 | Inr content \<Rightarrow> verifyContent L content k)
     \<and> s' = run (GitCatFile h) s"
  by (auto simp: verifySignature_def Let_def split: sum.splits)

lemma verifySignature_fst:
  "fst (verifySignature L w h k s) = fst (verifySignature L w h k t)"
  by (simp add: verifySignature_def Let_def split: sum.splits)

lemma getAltSigningKeys_fst:
  "fst (getAltSigningKeys L w h kf vk s) = fst (getAltSigningKeys L w h kf vk t)"
  unfolding getAltSigningKeys_def Let_def
  by (auto split: sum.splits result.splits prod.splits simp: verifySignature_iff)

lemma getAltSigningKeys_state:
  assumes "getAltSigningKeys L w h kf vk s = (r, s')"
  shows "updateInflight s' = updateInflight s \<and> lastPluginUpdate s' = lastPluginUpdate s
         \<and> workingCopy s' = workingCopy s"
  using assms unfolding getAltSigningKeys_def Let_def
  by (auto split: sum.splits result.splits prod.splits if_splits
           simp: verifySignature_iff run_fields)

lemma getAltSigningKeys_extends:
  assumes "getAltSigningKeys L w h kf vk s = (r, s')"
    and "\<And>e. quiet e \<Longrightarrow> Q (e, updateInflight s)"
  shows "extends Q s s'"
  using assms unfolding getAltSigningKeys_def Let_def
  by (auto split: sum.splits result.splits prod.splits if_splits
           simp: verifySignature_iff extends_def run_def)

lemma resolveKeys_fst:
  "fst (resolveKeys L w ver s) = fst (resolveKeys L w ver t)"
  using getAltSigningKeys_fst [of L w ver "cfg_AltSigningKeysFile w" "cfg_SigningKeys w" s t]
  unfolding resolveKeys_def
  by (auto split: result.splits prod.splits)

lemma resolveKeys_state:
  assumes "resolveKeys L w ver s = (r, s')"
  shows "updateInflight s' = updateInflight s \<and> lastPluginUpdate s' = lastPluginUpdate s
         \<and> workingCopy s' = workingCopy s"
  using assms unfolding resolveKeys_def reportFailure_def
  by (auto split: result.splits prod.splits if_splits
           simp: run_fields dest: getAltSigningKeys_state)

lemma resolveKeys_extends:
  assumes "resolveKeys L w ver s = (r, s')"
    and q: "\<And>e. quiet e \<Longrightarrow> Q (e, updateInflight s)"
  shows "extends Q s s'"
proof (cases "cfg_AltSigningKeysFile w = []")
  case True
  with assms show ?thesis by (simp add: resolveKeys_def extends_refl)
next
  case False
  obtain r1 s1 where g:
    "getAltSigningKeys L w ver (cfg_AltSigningKeysFile w) (cfg_SigningKeys w) s = (r1, s1)"
    by (cases "getAltSigningKeys L w ver (cfg_AltSigningKeysFile w) (cfg_SigningKeys w) s")
  have e1: "extends Q s s1" using g q by (rule getAltSigningKeys_extends)
  have f1: "updateInflight s1 = updateInflight s" using getAltSigningKeys_state [OF g] by simp
  have "s' = s1 \<or> s' = run (ReportFailure ''alt-key-fail'') s1"
    using assms(1) False g by (auto simp: resolveKeys_def reportFailure_def split: result.splits)
  then show ?thesis
  proof
    assume "s' = s1" with e1 show ?thesis by simp
  next
    assume s': "s' = run (ReportFailure ''alt-key-fail'') s1"
    have "extends Q s1 s'" unfolding s' using q [of "ReportFailure ''alt-key-fail''"] f1
      by (intro extends_run) simp
    with e1 show ?thesis by (rule extends_trans)
  qed
qed

text \<open>
  The other steps.
\<close>

lemma ensureGitRepo_fst: "fst (ensureGitRepo w s) = fst (ensureGitRepo w t)"
  unfolding ensureGitRepo_def Let_def by (auto split: option.splits)

lemma ensureGitRepo_state:
  assumes "ensureGitRepo w s = (r, s')"
  shows "updateInflight s' = updateInflight s \<and> lastPluginUpdate s' = lastPluginUpdate s
         \<and> (r = Ok () \<longrightarrow> workingCopy s' = workingCopy s)"
  using assms unfolding ensureGitRepo_def Let_def
  by (auto split: option.splits if_splits simp: run_fields)

lemma ensureGitRepo_extends:
  assumes "ensureGitRepo w s = (r, s')"
    and "\<And>e. quiet e \<Longrightarrow> Q (e, updateInflight s)"
  shows "extends Q s s'"
  using assms unfolding ensureGitRepo_def Let_def
  by (auto split: option.splits if_splits simp: extends_def run_def)

lemma updateByFetch_iff:
  "updateByFetch w s = (r, s') \<longleftrightarrow>
     r = (case git_fetch w of Some msg \<Rightarrow> Err (FetchError msg) | None \<Rightarrow> Ok ())
     \<and> s' = s\<lparr>updateInflight := False, lastPluginUpdate := now_at_fetch w,
              trace := trace s @ [(GitFetch, True)]\<rparr>"
  by (auto simp: updateByFetch_def run_def Let_def)

lemma checkoutStep_state:
  assumes "checkoutStep w ver s = (r, s')"
  shows "updateInflight s' = updateInflight s \<and> lastPluginUpdate s' = lastPluginUpdate s
         \<and> (r \<noteq> Ok () \<longrightarrow> workingCopy s' = workingCopy s)"
  using assms unfolding checkoutStep_def checkoutCommit_def reportFailure_def Let_def
  by (auto split: option.splits simp: run_fields)

lemma checkoutStep_extends:
  assumes "checkoutStep w ver s = (r, s')"
    and "Q (GitResetHard ver, updateInflight s)"
    and "Q (ReportFailure ''git-fail'', updateInflight s)"
  shows "extends Q s s'"
  using assms unfolding checkoutStep_def checkoutCommit_def reportFailure_def Let_def
  by (auto split: option.splits simp: extends_def run_def)

lemma verifyAndCheckout_state:
  assumes "verifyAndCheckout L w ver s = (r, s')"
  shows "updateInflight s' = updateInflight s \<and> lastPluginUpdate s' = lastPluginUpdate s"
  using assms unfolding verifyAndCheckout_def reportFailure_def
  by (auto split: result.splits prod.splits if_splits
           simp: verifySignature_iff run_fields
           dest!: resolveKeys_state checkoutStep_state)

lemma verifyAndCheckout_extends:
  assumes v: "verifyAndCheckout L w ver s = (r, s')"
    and q: "\<And>e. e \<noteq> GitFetch \<Longrightarrow> Q (e, updateInflight s)"
  shows "extends Q s s'"
proof (cases "cfg_SigningKeys w = []")
  case True
  with v have "checkoutStep w ver s = (r, s')" by (simp add: verifyAndCheckout_def)
  then show ?thesis by (rule checkoutStep_extends) (simp_all add: q)
next
  case False
  obtain r1 s1 where k: "resolveKeys L w ver s = (r1, s1)" by (cases "resolveKeys L w ver s")
  have e1: "extends Q s s1" using k by (rule resolveKeys_extends) (rule q, auto)
  have f1: "updateInflight s1 = updateInflight s" using resolveKeys_state [OF k] by simp
  show ?thesis
  proof (cases r1)
    case (Ok keys)
    obtain r2 s2 where vs: "verifySignature L w ver keys s1 = (r2, s2)"
      by (cases "verifySignature L w ver keys s1")
    then have s2: "s2 = run (GitCatFile ver) s1" by (simp add: verifySignature_iff)
    have e2: "extends Q s1 s2" unfolding s2 using q [of "GitCatFile ver"] f1
      by (intro extends_run) simp
    have f2: "updateInflight s2 = updateInflight s" using s2 f1 by (simp add: run_fields)
    have e3: "extends Q s2 s'"
    proof (cases r2)
      case Ok
      with v False k \<open>r1 = Ok keys\<close> vs have "checkoutStep w ver s2 = (r, s')"
        by (simp add: verifyAndCheckout_def)
      then show ?thesis by (rule checkoutStep_extends) (simp_all add: q f2)
    next
      case (Err e)
      with v False k \<open>r1 = Ok keys\<close> vs have "s' = run (ReportFailure ''signature-fail'') s2"
        by (simp add: verifyAndCheckout_def reportFailure_def)
      then show ?thesis using q [of "ReportFailure ''signature-fail''"] f2
        by (simp add: extends_run)
    next
      case Panic
      with v False k \<open>r1 = Ok keys\<close> vs have "s' = s2" by (simp add: verifyAndCheckout_def)
      then show ?thesis by (simp add: extends_refl)
    qed
    from e1 e2 e3 show ?thesis by (blast intro: extends_trans)
  next
    case (Err e)
    with v False k have "s' = s1" by (simp add: verifyAndCheckout_def)
    with e1 show ?thesis by simp
  next
    case Panic
    with v False k have "s' = s1" by (simp add: verifyAndCheckout_def)
    with e1 show ?thesis by simp
  qed
qed

subsection \<open>Claims on the trusted keys\<close>

text \<open>
  C4. When the revision that last changed the keys file fails verification against the
  keys passed in, \<open>getAltSigningKeys\<close> returns that error and no keys; \<open>UpdatePlugin\<close>
  passes the configured keys and goes on with them alone.
\<close>

theorem getAltSigningKeys_needs_signed_keys_file:
  assumes rev: "git_rev_list w head keyFile = Inr out"
    and fail: "fst (verifySignature L w (TrimSpace L out) validKeys t) = Err e"
  shows "fst (getAltSigningKeys L w head keyFile validKeys s)
           = Err (if keyFile_exists w then e else KeyFileDoesNotExist)
         \<and> (keyFile = cfg_AltSigningKeysFile w \<and> validKeys = cfg_SigningKeys w
              \<longrightarrow> fst (resolveKeys L w head s) = Ok (cfg_SigningKeys w))"
proof -
  obtain s1 where "verifySignature L w (TrimSpace L out) validKeys
                     (run (GitRevList head keyFile) s) = (Err e, s1)"
    using fail verifySignature_fst [of L w "TrimSpace L out" validKeys
                                       "run (GitRevList head keyFile) s" t]
    by (cases "verifySignature L w (TrimSpace L out) validKeys (run (GitRevList head keyFile) s)")
       simp
  then have g: "fst (getAltSigningKeys L w head keyFile validKeys s)
                  = Err (if keyFile_exists w then e else KeyFileDoesNotExist)"
    using rev by (simp add: getAltSigningKeys_def Let_def)
  then have "keyFile = cfg_AltSigningKeysFile w \<Longrightarrow> validKeys = cfg_SigningKeys w
               \<Longrightarrow> fst (resolveKeys L w head s) = Ok (cfg_SigningKeys w)"
    by (cases "getAltSigningKeys L w head (cfg_AltSigningKeysFile w) (cfg_SigningKeys w) s")
       (auto simp: resolveKeys_def split: if_splits)
  with g show ?thesis by simp
qed

theorem getAltSigningKeys_needs_signed_keys_file_witness:
  "git_rev_list (alt_world unsigned_commit signed_commit) ''origin/master'' ''keys.txt''
     = Inr ''77aa\<newline>''
   \<and> fst (verifySignature ex_lib (alt_world unsigned_commit signed_commit)
            (TrimSpace ex_lib ''77aa\<newline>'') [root_key] idle) = Err SignatureNotFound
   \<and> fst (verifySignature ex_lib (alt_world unsigned_commit signed_commit)
            ''origin/master'' [root_key] idle) = Ok ()
   \<and> fst (getAltSigningKeys ex_lib (alt_world unsigned_commit signed_commit)
            ''origin/master'' ''keys.txt'' [root_key] idle) = Err SignatureNotFound
   \<and> fst (resolveKeys ex_lib (alt_world unsigned_commit signed_commit) ''origin/master'' idle)
       = Ok [root_key]"
proof -
  have h1: "git_rev_list (alt_world unsigned_commit signed_commit) ''origin/master'' ''keys.txt''
              = Inr ''77aa\<newline>''"
    by (simp add: alt_world_def ex_world_def)
  have h2: "fst (verifySignature ex_lib (alt_world unsigned_commit signed_commit)
                  (TrimSpace ex_lib ''77aa\<newline>'') [root_key] idle) = Err SignatureNotFound"
    by code_simp
  have h3: "fst (verifySignature ex_lib (alt_world unsigned_commit signed_commit)
                  ''origin/master'' [root_key] idle) = Ok ()"
    by code_simp
  have c: "keyFile_exists (alt_world unsigned_commit signed_commit)
           \<and> cfg_AltSigningKeysFile (alt_world unsigned_commit signed_commit) = ''keys.txt''
           \<and> cfg_SigningKeys (alt_world unsigned_commit signed_commit) = [root_key]"
    by (simp add: alt_world_def ex_world_def)
  show ?thesis
    using getAltSigningKeys_needs_signed_keys_file [OF h1 h2, of idle] h1 h2 h3 c
    by simp
qed

text \<open>
  C1 (as the code has it). \<open>append(altKeys, cfg.SigningKeys...)\<close> puts the alternate keys
  first. With a keyid that is a prefix of both \<open>root_key\<close> (configured) and
  \<open>other_key\<close> (from the keys file), the alternate key is selected, and the update that
  succeeds without the keys file fails with it.
\<close>

theorem primary_key_not_preferred:
  "cfg_SigningKeys (alt_world signed_commit signed_commit) = [root_key]
   \<and> HasPrefix root_key ''PUAX'' \<and> HasPrefix other_key ''PUAX''
   \<and> fst (resolveKeys ex_lib (alt_world signed_commit signed_commit) ''origin/master'' idle)
       = Ok [other_key, root_key]
   \<and> matchKey ex_lib [other_key, root_key] ''PUAX'' []
       = Ok ''PUAXAAAAAAAAAAAAAAAAAAAAAAAAAAAAAAAAAAAAAAA=''
   \<and> fst (UpdatePlugin ex_lib (alt_world signed_commit signed_commit) [] idle)
       = Err SignatureInvalid
   \<and> fst (UpdatePlugin ex_lib (ex_world signed_commit) [] idle) = Ok ()"
  by code_simp

lemma checkoutStep_fst:
  "fst (checkoutStep w ver s) =
     (case git_reset_hard w ver of Some msg \<Rightarrow> Err (ResetHardFailed msg) | None \<Rightarrow> Ok ())"
  by (simp add: checkoutStep_def checkoutCommit_def Let_def split: option.splits)

text \<open>
  C1, amended. The list used in the verification stage is the alternate keys followed by
  the configured keys. When the keyid of the signature line is a prefix of an alternate
  key, the key selected is the first field of the first such alternate key, whatever the
  configured keys are: it is the key \<open>verifySignature\<close> checks the signature with, and
  it decides whether \<open>UpdatePlugin\<close> goes on to the checkout.
\<close>

theorem alternate_keys_matched_first:
  assumes keys: "cfg_SigningKeys w \<noteq> []" and kf: "cfg_AltSigningKeysFile w \<noteq> []"
    and alt: "fst (getAltSigningKeys L w ver (cfg_AltSigningKeysFile w) (cfg_SigningKeys w) s)
                = Ok altKeys"
    and split: "altKeys = pre @ k # post"
    and pre: "\<forall>k' \<in> set pre. \<not> HasPrefix k' keyid"
    and k: "HasPrefix k keyid"
    and fld: "Fields L k = f # fs"
    and cat: "git_cat_file w ver = Inr content"
    and sp: "Split content CHR 0x0A = ls @ l # ls'"
    and single: "\<forall>l' \<in> set (ls @ ls'). \<not> HasPrefix l' ''satori-sign ''"
    and l: "HasPrefix l ''satori-sign ''"
    and a: "Split (TrimSpace L (drop (length ''satori-sign '') l)) CHR '':'' = keyid # sg # rest"
    and T: "T = treeAfter L (Split content CHR 0x0A) []"
  shows "fst (resolveKeys L w ver s) = Ok (altKeys @ cfg_SigningKeys w)
         \<and> matchKey L (altKeys @ cfg_SigningKeys w) keyid key = Ok f
         \<and> fst (verifySignature L w ver (altKeys @ cfg_SigningKeys w) s) = checkFields L (T, f, sg)
         \<and> fst (verifyAndCheckout L w ver s) =
             (case checkFields L (T, f, sg) of
                Ok _ \<Rightarrow> (case git_reset_hard w ver of
                            Some msg \<Rightarrow> Err (ResetHardFailed msg) | None \<Rightarrow> Ok ())
              | Err e \<Rightarrow> Err e
              | Panic \<Rightarrow> Panic)"
proof -
  let ?keys = "altKeys @ cfg_SigningKeys w"
  obtain s1 where g: "getAltSigningKeys L w ver (cfg_AltSigningKeysFile w) (cfg_SigningKeys w) s
                        = (Ok altKeys, s1)"
    using alt
    by (cases "getAltSigningKeys L w ver (cfg_AltSigningKeysFile w) (cfg_SigningKeys w) s") simp
  have rk: "resolveKeys L w ver s = (Ok ?keys, s1)"
    using kf g by (simp add: resolveKeys_def)
  have mk: "matchKey L ?keys keyid key = Ok f" for key
    using matchKey_first [OF pre k fld, of "post @ cfg_SigningKeys w" key] by (simp add: split)
  obtain t' where before: "scanLines L ?keys ls ([], [], []) = Ok (t', [], [])"
    using scanLines_without_sign_line [of ls L ?keys "[]" "[]" "[]"] single by auto
  have after: "\<forall>l' \<in> set ls'. \<not> HasPrefix l' ''satori-sign ''" using single by simp
  have sc: "scanLines L ?keys (Split content CHR 0x0A) ([], [], []) = Ok (T, f, sg)"
    unfolding sp T using l a before mk after by (rule scanLines_last_sign_line)
  have vc: "verifyContent L content ?keys = checkFields L (T, f, sg)"
    using sc by (simp add: verifyContent_def)
  have vs: "verifySignature L w ver ?keys t = (checkFields L (T, f, sg), run (GitCatFile ver) t)"
    for t
    using cat vc by (simp add: verifySignature_iff)
  have va: "fst (verifyAndCheckout L w ver s) =
              (case checkFields L (T, f, sg) of
                 Ok _ \<Rightarrow> (case git_reset_hard w ver of
                             Some msg \<Rightarrow> Err (ResetHardFailed msg) | None \<Rightarrow> Ok ())
               | Err e \<Rightarrow> Err e
               | Panic \<Rightarrow> Panic)"
    using keys rk vs [of s1]
    by (simp add: verifyAndCheckout_def checkoutStep_fst split: result.splits)
  from rk mk vs [of s] va show ?thesis by simp
qed

theorem alternate_keys_matched_first_witness:
  "cfg_SigningKeys (alt_world signed_commit signed_commit) \<noteq> []
   \<and> cfg_AltSigningKeysFile (alt_world signed_commit signed_commit) \<noteq> []
   \<and> fst (getAltSigningKeys ex_lib (alt_world signed_commit signed_commit) ''origin/master''
            (cfg_AltSigningKeysFile (alt_world signed_commit signed_commit))
            (cfg_SigningKeys (alt_world signed_commit signed_commit)) idle) = Ok [other_key]
   \<and> [other_key] = [] @ other_key # []
   \<and> HasPrefix other_key ''PUAX''
   \<and> Fields ex_lib other_key = ''PUAXAAAAAAAAAAAAAAAAAAAAAAAAAAAAAAAAAAAAAAA='' # [''other'']
   \<and> git_cat_file (alt_world signed_commit signed_commit) ''origin/master'' = Inr signed_commit
   \<and> Split signed_commit CHR 0x0A
       = [''tree r'', ''author a <a@example.org> 1 +0000'']
         @ (''satori-sign PUAX:'' @ tv_sig64) # []
   \<and> HasPrefix (''satori-sign PUAX:'' @ tv_sig64) ''satori-sign ''
   \<and> Split (TrimSpace ex_lib (drop (length ''satori-sign '') (''satori-sign PUAX:'' @ tv_sig64)))
        CHR '':'' = ''PUAX'' # tv_sig64 # []
   \<and> ''r'' = treeAfter ex_lib (Split signed_commit CHR 0x0A) []
   \<and> matchKey ex_lib ([other_key] @ cfg_SigningKeys (alt_world signed_commit signed_commit))
        ''PUAX'' [] = Ok ''PUAXAAAAAAAAAAAAAAAAAAAAAAAAAAAAAAAAAAAAAAA=''
   \<and> checkFields ex_lib (''r'', ''PUAXAAAAAAAAAAAAAAAAAAAAAAAAAAAAAAAAAAAAAAA='', tv_sig64)
       = Err SignatureInvalid
   \<and> fst (verifyAndCheckout ex_lib (alt_world signed_commit signed_commit) ''origin/master'' idle)
       = Err SignatureInvalid"
proof -
  let ?w = "alt_world signed_commit signed_commit"
  let ?f = "''PUAXAAAAAAAAAAAAAAAAAAAAAAAAAAAAAAAAAAAAAAA=''"
  have h1: "cfg_SigningKeys ?w \<noteq> []" by (simp add: alt_world_def ex_world_def)
  have h2: "cfg_AltSigningKeysFile ?w \<noteq> []" by (simp add: alt_world_def)
  have h3: "fst (getAltSigningKeys ex_lib ?w ''origin/master'' (cfg_AltSigningKeysFile ?w)
                  (cfg_SigningKeys ?w) idle) = Ok [other_key]"
    by code_simp
  have h4: "[other_key] = [] @ other_key # []" by simp
  have h5: "\<forall>k' \<in> set ([]::string list). \<not> HasPrefix k' ''PUAX''" by simp
  have h6: "HasPrefix other_key ''PUAX''" by code_simp
  have h7: "Fields ex_lib other_key = ?f # [''other'']" by code_simp
  have h8: "git_cat_file ?w ''origin/master'' = Inr signed_commit"
    by (simp add: alt_world_def ex_world_def)
  have h9: "Split signed_commit CHR 0x0A
       = [''tree r'', ''author a <a@example.org> 1 +0000'']
         @ (''satori-sign PUAX:'' @ tv_sig64) # []"
    by code_simp
  have h10: "\<forall>l' \<in> set ([''tree r'', ''author a <a@example.org> 1 +0000''] @ []).
               \<not> HasPrefix l' ''satori-sign ''"
    by (simp add: HasPrefix_def)
  have h11: "HasPrefix (''satori-sign PUAX:'' @ tv_sig64) ''satori-sign ''" by code_simp
  have h12: "Split (TrimSpace ex_lib (drop (length ''satori-sign '')
               (''satori-sign PUAX:'' @ tv_sig64))) CHR '':'' = ''PUAX'' # tv_sig64 # []"
    by code_simp
  have h13: "''r'' = treeAfter ex_lib (Split signed_commit CHR 0x0A) []" by code_simp
  have cf: "checkFields ex_lib (''r'', ?f, tv_sig64) = Err SignatureInvalid" by code_simp
  note th = alternate_keys_matched_first [OF h1 h2 h3 h4 h5 h6 h7 h8 h9 h10 h11 h12 h13,
      where key = "[]"]
  have c1: "matchKey ex_lib ([other_key] @ cfg_SigningKeys ?w) ''PUAX'' [] = Ok ?f"
    using th by (elim conjE)
  have c2: "fst (verifyAndCheckout ex_lib ?w ''origin/master'' idle) = Err SignatureInvalid"
    using th cf by (elim conjE) simp
  from h1 h2 h3 h4 h6 h7 h8 h9 h11 h12 h13 c1 cf c2 show ?thesis by (intro conjI)
qed

subsection \<open>Claims on UpdatePlugin\<close>

lemma sint_diff_small:
  fixes a b :: "64 word"
  assumes "- (2 ^ 63) \<le> sint a - sint b" and "sint a - sint b < 300"
  shows "sint (a - b) = sint a - sint b"
proof -
  have "sint (a - b) = signed_take_bit 63 (sint a - sint b)"
    by (simp add: sint_word_ariths)
  also have "\<dots> = sint a - sint b"
    using assms by (intro signed_take_bit_int_eq_self) simp_all
  finally show ?thesis .
qed

text \<open>
  C8. A call less than 300 seconds after the last fetch began is rejected with an error
  and the state is unchanged: the flag and the time stamp are as before and nothing is
  added to the log (no subprocess, no metrics report).
\<close>

theorem update_too_recent_is_rejected:
  assumes "- (2 ^ 63) \<le> sint (now_at_guard w) - sint (lastPluginUpdate s)"
    and "sint (now_at_guard w) - sint (lastPluginUpdate s) < 300"
  shows "fst (UpdatePlugin L w ver s)
           \<in> {Err PluginNotEnabled, Err PreviousUpdateInflight, Err PreviousUpdateTooRecent}
         \<and> snd (UpdatePlugin L w ver s) = s"
proof -
  have "sint (now_at_guard w - lastPluginUpdate s) < 300"
    using assms sint_diff_small [OF assms] by simp
  then show ?thesis by (simp add: UpdatePlugin_def)
qed

theorem update_too_recent_is_rejected_witness:
  "- (2 ^ 63) \<le> sint (now_at_guard (ex_world signed_commit))
                  - sint (lastPluginUpdate (idle\<lparr>lastPluginUpdate := 900\<rparr>))
   \<and> sint (now_at_guard (ex_world signed_commit))
       - sint (lastPluginUpdate (idle\<lparr>lastPluginUpdate := 900\<rparr>)) < 300
   \<and> UpdatePlugin ex_lib (ex_world signed_commit) [] (idle\<lparr>lastPluginUpdate := 900\<rparr>)
       = (Err PreviousUpdateTooRecent, idle\<lparr>lastPluginUpdate := 900\<rparr>)"
proof -
  have h1: "- (2 ^ 63) \<le> sint (now_at_guard (ex_world signed_commit))
                  - sint (lastPluginUpdate (idle\<lparr>lastPluginUpdate := 900\<rparr>))"
    by (simp add: ex_world_def idle_def)
  have h2: "sint (now_at_guard (ex_world signed_commit))
       - sint (lastPluginUpdate (idle\<lparr>lastPluginUpdate := 900\<rparr>)) < 300"
    by (simp add: ex_world_def idle_def)
  have r: "fst (UpdatePlugin ex_lib (ex_world signed_commit) [] (idle\<lparr>lastPluginUpdate := 900\<rparr>))
             = Err PreviousUpdateTooRecent"
    by (simp add: UpdatePlugin_def ex_world_def idle_def)
  show ?thesis
    using update_too_recent_is_rejected [OF h1 h2, of ex_lib "[]"] h1 h2 r
    by (simp add: prod_eq_iff)
qed

text \<open>
  C3 (as the code has it). The deferred reset belongs to \<open>updateByFetch\<close>: in a complete
  update the flag is true while \<open>git fetch\<close> runs and false while the commit is read
  and checked out.
\<close>

theorem inflight_flag_clear_at_checkout:
  "UpdatePlugin ex_lib (ex_world signed_commit) [] idle =
     (Ok (), \<lparr>updateInflight = False, lastPluginUpdate = 1001,
              workingCopy = Some ''origin/master'',
              trace = [(GitFetch, True), (GitCatFile ''origin/master'', False),
                       (GitResetHard ''origin/master'', False)]\<rparr>)"
  by code_simp

text \<open>
  C3, amended. In every call the flag is true exactly while the fetch runs: every other
  event of the call is logged with the flag false, and the flag is on exit what it was on
  entry (false, unless the call was rejected).
\<close>

theorem inflight_flag_set_only_during_fetch:
  "\<exists>evs. trace (snd (UpdatePlugin L w ver0 s)) = trace s @ evs
         \<and> list_all (\<lambda>(ev, fl). fl = (ev = GitFetch)) evs
         \<and> updateInflight (snd (UpdatePlugin L w ver0 s)) = updateInflight s"
proof -
  let ?Q = "\<lambda>(ev, fl). fl = (ev = GitFetch)"
  let ?ver = "if ver0 = [] then ''origin/master'' else ver0"
  have goal: "extends ?Q s (snd (UpdatePlugin L w ver0 s))
              \<and> updateInflight (snd (UpdatePlugin L w ver0 s)) = updateInflight s"
  proof (cases "\<not> cfg_Enabled w \<or> updateInflight s
                \<or> sint (now_at_guard w - lastPluginUpdate s) < 300")
    case True
    then have "snd (UpdatePlugin L w ver0 s) = s" by (auto simp: UpdatePlugin_def)
    then show ?thesis by (simp add: extends_refl)
  next
    case False
    then have nf: "\<not> updateInflight s" by simp
    define s1 where "s1 = (if \<not> parentDir_exists w then run MkdirAll s else s)"
    have e1: "extends ?Q s s1" using nf by (simp add: s1_def extends_refl extends_run)
    have f1: "\<not> updateInflight s1" using nf by (simp add: s1_def run_fields)
    obtain r2 s2 where en: "ensureGitRepo w s1 = (r2, s2)" by (cases "ensureGitRepo w s1")
    have e2: "extends ?Q s1 s2" using en
      by (rule ensureGitRepo_extends) (use f1 in auto)
    have f2: "\<not> updateInflight s2" using ensureGitRepo_state [OF en] f1 by simp
    have up: "UpdatePlugin L w ver0 s =
                (case (r2, s2) of
                   (Err e, s2) \<Rightarrow> (Err e, reportFailure ''git-fail'' s2)
                 | (Panic, s2) \<Rightarrow> (Panic, s2)
                 | (Ok _, s2) \<Rightarrow>
                     (case updateByFetch w s2 of
                        (Err e, s3) \<Rightarrow> (Err e, reportFailure ''git-fail'' s3)
                      | (Panic, s3) \<Rightarrow> (Panic, s3)
                      | (Ok _, s3) \<Rightarrow> verifyAndCheckout L w ?ver s3))"
      using False en by (simp add: UpdatePlugin_def s1_def Let_def)
    show ?thesis
    proof (cases r2)
      case (Err e)
      then have "snd (UpdatePlugin L w ver0 s) = run (ReportFailure ''git-fail'') s2"
        by (simp add: up reportFailure_def)
      moreover have "extends ?Q s2 (run (ReportFailure ''git-fail'') s2)"
        using f2 by (simp add: extends_run)
      ultimately show ?thesis using e1 e2 f2 nf
        by (auto intro: extends_trans simp: run_fields)
    next
      case Panic
      then have "snd (UpdatePlugin L w ver0 s) = s2" by (simp add: up)
      then show ?thesis using e1 e2 f2 nf by (auto intro: extends_trans)
    next
      case (Ok u)
      obtain r3 s3 where fe: "updateByFetch w s2 = (r3, s3)" by (cases "updateByFetch w s2")
      then have s3: "s3 = s2\<lparr>updateInflight := False, lastPluginUpdate := now_at_fetch w,
                              trace := trace s2 @ [(GitFetch, True)]\<rparr>"
        by (simp add: updateByFetch_iff)
      have e3: "extends ?Q s2 s3" by (simp add: s3 extends_def)
      have f3: "\<not> updateInflight s3" by (simp add: s3)
      have e03: "extends ?Q s s3" using e1 e2 e3 by (blast intro: extends_trans)
      show ?thesis
      proof (cases r3)
        case (Err e)
        then have "snd (UpdatePlugin L w ver0 s) = run (ReportFailure ''git-fail'') s3"
          using Ok fe by (simp add: up reportFailure_def)
        moreover have "extends ?Q s3 (run (ReportFailure ''git-fail'') s3)"
          using f3 by (simp add: extends_run)
        ultimately show ?thesis using e03 f3 nf
          by (auto intro: extends_trans simp: run_fields)
      next
        case Panic
        then have "snd (UpdatePlugin L w ver0 s) = s3" using Ok fe by (simp add: up)
        then show ?thesis using e03 f3 nf by simp
      next
        case (Ok u')
        obtain r4 s4 where vc: "verifyAndCheckout L w ?ver s3 = (r4, s4)"
          by (cases "verifyAndCheckout L w ?ver s3")
        have "snd (UpdatePlugin L w ver0 s) = s4" using \<open>r2 = Ok u\<close> Ok fe vc by (simp add: up)
        moreover have "extends ?Q s3 s4" using vc
          by (rule verifyAndCheckout_extends) (use f3 in auto)
        moreover have "\<not> updateInflight s4" using verifyAndCheckout_state [OF vc] f3 by simp
        ultimately show ?thesis using e03 nf by (auto intro: extends_trans)
      qed
    qed
  qed
  then show ?thesis by (auto simp: extends_def)
qed

text \<open>
  C6. With signing keys configured, when the verification of the target revision fails
  \<open>UpdatePlugin\<close> returns that error, no \<open>git reset --hard\<close> is run and the working
  copy stays at its revision.
\<close>

theorem failed_verification_blocks_checkout:
  assumes en: "cfg_Enabled w" and nf: "\<not> updateInflight s"
    and cool: "\<not> sint (now_at_guard w - lastPluginUpdate s) < 300"
    and repo: "fst (ensureGitRepo w s) = Ok ()" and fetch: "git_fetch w = None"
    and keys: "cfg_SigningKeys w \<noteq> []"
    and ver: "ver = (if ver0 = [] then ''origin/master'' else ver0)"
    and rk: "fst (resolveKeys L w ver s) = Ok ks"
    and vf: "fst (verifySignature L w ver ks s) = Err e"
  shows "fst (UpdatePlugin L w ver0 s) = Err e
         \<and> workingCopy (snd (UpdatePlugin L w ver0 s)) = workingCopy s
         \<and> (\<exists>evs. trace (snd (UpdatePlugin L w ver0 s)) = trace s @ evs
                  \<and> (\<forall>h fl. (GitResetHard h, fl) \<notin> set evs))"
proof -
  let ?Q = "\<lambda>(ev, fl). \<forall>h. ev \<noteq> GitResetHard h"
  have q: "quiet ev \<Longrightarrow> ?Q (ev, fl)" for ev fl by (cases ev) auto
  define s1 where "s1 = (if \<not> parentDir_exists w then run MkdirAll s else s)"
  have e1: "extends ?Q s s1" by (simp add: s1_def extends_refl extends_run)
  have w1: "workingCopy s1 = workingCopy s" by (simp add: s1_def run_fields)
  obtain r2 s2 where eg: "ensureGitRepo w s1 = (r2, s2)" by (cases "ensureGitRepo w s1")
  have r2: "r2 = Ok ()" using eg repo ensureGitRepo_fst [of w s1 s] by simp
  have e2: "extends ?Q s1 s2" using eg by (rule ensureGitRepo_extends) (rule q)
  have w2: "workingCopy s2 = workingCopy s" using ensureGitRepo_state [OF eg] r2 w1 by simp
  define s3 where "s3 = s2\<lparr>updateInflight := False, lastPluginUpdate := now_at_fetch w,
                            trace := trace s2 @ [(GitFetch, True)]\<rparr>"
  have uf: "updateByFetch w s2 = (Ok (), s3)" by (simp add: updateByFetch_iff fetch s3_def)
  have e3: "extends ?Q s2 s3" by (simp add: s3_def extends_def)
  have w3: "workingCopy s3 = workingCopy s" using w2 by (simp add: s3_def)
  obtain r4 s4 where k: "resolveKeys L w ver s3 = (r4, s4)" by (cases "resolveKeys L w ver s3")
  have r4: "r4 = Ok ks" using k rk resolveKeys_fst [of L w ver s3 s] by simp
  have e4: "extends ?Q s3 s4" using k by (rule resolveKeys_extends) (rule q)
  have w4: "workingCopy s4 = workingCopy s" using resolveKeys_state [OF k] w3 by simp
  define s5 where "s5 = run (GitCatFile ver) s4"
  have vs: "verifySignature L w ver ks s4 = (Err e, s5)"
    using vf verifySignature_fst [of L w ver ks s4 s]
    by (simp add: prod_eq_iff s5_def verifySignature_iff [of L w ver ks s4 "fst (verifySignature L w ver ks s4)" "snd (verifySignature L w ver ks s4)", simplified])
  define s6 where "s6 = run (ReportFailure ''signature-fail'') s5"
  have e56: "extends ?Q s4 s6" by (simp add: s6_def s5_def extends_def run_def)
  have w6: "workingCopy s6 = workingCopy s" using w4 by (simp add: s6_def s5_def run_fields)
  have vc: "verifyAndCheckout L w ver s3 = (Err e, s6)"
    using keys k r4 vs by (simp add: verifyAndCheckout_def reportFailure_def s6_def)
  have up: "UpdatePlugin L w ver0 s = (Err e, s6)"
    using en nf cool eg r2 uf vc ver by (simp add: UpdatePlugin_def s1_def Let_def)
  have "extends ?Q s s6" using e1 e2 e3 e4 e56 by (blast intro: extends_trans)
  then have "\<exists>evs. trace s6 = trace s @ evs \<and> (\<forall>h fl. (GitResetHard h, fl) \<notin> set evs)"
    by (fastforce simp: extends_def list_all_iff)
  with up w6 show ?thesis by simp
qed

theorem failed_verification_blocks_checkout_witness:
  "cfg_Enabled (ex_world untrusted_commit) \<and> \<not> updateInflight idle
   \<and> \<not> sint (now_at_guard (ex_world untrusted_commit) - lastPluginUpdate idle) < 300
   \<and> fst (ensureGitRepo (ex_world untrusted_commit) idle) = Ok ()
   \<and> git_fetch (ex_world untrusted_commit) = None
   \<and> cfg_SigningKeys (ex_world untrusted_commit) \<noteq> []
   \<and> fst (resolveKeys ex_lib (ex_world untrusted_commit) ''origin/master'' idle) = Ok [root_key]
   \<and> fst (verifySignature ex_lib (ex_world untrusted_commit) ''origin/master'' [root_key] idle)
       = Err SigningKeyUntrusted
   \<and> fst (UpdatePlugin ex_lib (ex_world untrusted_commit) [] idle) = Err SigningKeyUntrusted
   \<and> workingCopy (snd (UpdatePlugin ex_lib (ex_world untrusted_commit) [] idle)) = Some ''4f1c''"
proof -
  have h1: "cfg_Enabled (ex_world untrusted_commit)" by (simp add: ex_world_def)
  have h2: "\<not> updateInflight idle" by (simp add: idle_def)
  have h3: "\<not> sint (now_at_guard (ex_world untrusted_commit) - lastPluginUpdate idle) < 300"
    by (simp add: ex_world_def idle_def)
  have h4: "fst (ensureGitRepo (ex_world untrusted_commit) idle) = Ok ()"
    by (simp add: ensureGitRepo_def ex_world_def)
  have h5: "git_fetch (ex_world untrusted_commit) = None" by (simp add: ex_world_def)
  have h6: "cfg_SigningKeys (ex_world untrusted_commit) \<noteq> []" by (simp add: ex_world_def)
  have h7: "''origin/master'' = (if ([]::string) = [] then ''origin/master'' else [])" by simp
  have h8: "fst (resolveKeys ex_lib (ex_world untrusted_commit) ''origin/master'' idle)
              = Ok [root_key]"
    by (simp add: resolveKeys_def ex_world_def)
  have h9: "fst (verifySignature ex_lib (ex_world untrusted_commit) ''origin/master''
                  [root_key] idle) = Err SigningKeyUntrusted"
    by code_simp
  have w: "workingCopy idle = Some ''4f1c''" by (simp add: idle_def)
  show ?thesis
    using failed_verification_blocks_checkout [OF h1 h2 h3 h4 h5 h6 h7 h8 h9]
      h1 h2 h3 h4 h5 h6 h8 h9 w
    by simp
qed

subsection \<open>Claims on TrySelfUpdate\<close>

text \<open>
  C9 (as the code has it). The script runs under \<open>set -e\<close>: when \<open>mv\<close> fails, the
  rename was tried once and the copy is never run. And the path of the running executable
  is looked up before the candidate: when that fails the call returns the error, also
  with no candidate in the checkout.
\<close>

theorem self_update_swap_incomplete:
  "plainWord ''/usr/bin/satori-agent'' \<and> plainWord ''/opt/satori/plugin/satori-agent''
   \<and> TrySelfUpdate ex_lib (ex_host\<lparr>mv := False\<rparr>)
     = (Return (Err ScriptError), [Mv ''/usr/bin/satori-agent'' ''/usr/bin/satori-agent.01''])
   \<and> TrySelfUpdate ex_lib (ex_host\<lparr>osext_Executable := Inl ''permission denied'',
                                    file_IsExist := (\<lambda>_. False)\<rparr>)
     = (Return (Err (ExecutableError ''permission denied'')), [])"
  by code_simp

lemma plainChar_hexdigit: "n < 16 \<Longrightarrow> plainChar (hexdigit n)"
proof -
  assume n: "n < 16"
  have digits: "list_all plainChar ''0123456789abcdef''"
    by (simp add: plainChar_def)
  have "hexdigit n \<in> set ''0123456789abcdef''"
    unfolding hexdigit_def using n by (intro nth_mem) simp
  with digits show ?thesis by (simp only: list_all_iff)
qed

lemma plainChar_EncodeToString: "list_all plainChar (EncodeToString bs)"
proof (induction bs)
  case Nil
  then show ?case by (simp add: EncodeToString_def)
next
  case (Cons b bs)
  have "unat b < 256" using unsigned_less [of b, where 'a = nat] by simp
  then have "unat b div 16 < 16" by arith
  moreover have "unat b mod 16 < 16" by simp
  ultimately show ?case using Cons
    by (simp add: EncodeToString_def plainChar_hexdigit)
qed

lemma plainWord_backup:
  assumes "plainWord p"
  shows "plainWord (p @ ''.'' @ EncodeToString bs)"
proof -
  have "plainChar CHR ''.''" by (simp add: plainChar_def)
  moreover obtain c cs where "p = c # cs" using assms by (cases p) (auto simp: plainWord_def)
  ultimately show ?thesis
    using assms plainChar_EncodeToString [of bs]
    by (auto simp: plainWord_def HasPrefix_def)
qed

lemma swapScript_counts:
  assumes "plainWord a" and "plainWord b" and "plainWord c"
  shows "length (filter isRename (snd (swapScript h a b c))) \<le> 1
         \<and> length (filter isCopy (snd (swapScript h a b c))) \<le> 1"
  using assms by (simp add: swapScript_def Let_def)

lemma swapScript_complete:
  assumes "plainWord a" and "plainWord b" and "plainWord c"
    and "test_f h c" and "test_f h b \<longrightarrow> rm_f h" and "mv h" and "cp_a h"
  shows "swapScript h a b c = (True, (if test_f h b then [Rm b] else []) @ [Mv a b, Cp c a])"
  using assms by (simp add: swapScript_def Let_def)

lemma TrySelfUpdate_ops:
  assumes "osext_Executable h = Inr selfPath"
  shows "snd (TrySelfUpdate L h) = []
         \<or> (\<exists>bs ops. ops = snd (swapScript h selfPath (selfPath @ ''.'' @ EncodeToString bs)
                                  (Join L (cfg_PluginCheckoutPath h) ''satori-agent''))
                     \<and> (snd (TrySelfUpdate L h) = ops
                         \<or> snd (TrySelfUpdate L h) = ops @ [Exec selfPath]))"
  using assms unfolding TrySelfUpdate_def Let_def
  by (auto split: sum.splits option.splits prod.splits bool.splits) (metis snd_conv)+

text \<open>
  C9, amended. With the path of the running executable known: when the candidate is
  absent, or both files are read and their digests are equal, the call returns success
  and starts no command (no file is changed, the process image is not replaced). When the
  digests differ, the paths of the running binary and of the candidate are plain words,
  the candidate is a regular file, a stale backup (if any) is removed and both \<open>mv\<close>
  and \<open>cp\<close> succeed, the script runs exactly one rename of the running binary to the
  backup path and one copy of the candidate to the original path, and \<open>syscall.Exec\<close>
  follows. On plain paths no run starts more than one rename or more than one copy.
\<close>

theorem self_update_swaps_once:
  assumes exe: "osext_Executable h = Inr selfPath"
    and np: "newPath = Join L (cfg_PluginCheckoutPath h) ''satori-agent''"
    and bk: "backup = selfPath @ ''.'' @ EncodeToString (Sum256 L selfBytes)"
  shows "(\<not> file_IsExist h newPath \<longrightarrow> TrySelfUpdate L h = (Return (Ok ()), []))
    \<and> (os_Open h selfPath = None \<and> io_Copy h selfPath = Inr selfBytes
        \<and> os_Open h newPath = None \<and> io_Copy h newPath = Inr newBytes
        \<longrightarrow> (Sum256 L selfBytes = Sum256 L newBytes
               \<longrightarrow> TrySelfUpdate L h = (Return (Ok ()), []))
          \<and> (cfg_SelfUpdate h \<and> file_IsExist h newPath
               \<and> Sum256 L selfBytes \<noteq> Sum256 L newBytes
               \<and> plainWord selfPath \<and> plainWord newPath
               \<and> test_f h newPath \<and> (test_f h backup \<longrightarrow> rm_f h) \<and> mv h \<and> cp_a h
               \<longrightarrow> TrySelfUpdate L h =
                     (if syscall_Exec h then NewImage else Return (Err CantDoExec),
                      (if test_f h backup then [Rm backup] else [])
                      @ [Mv selfPath backup, Cp newPath selfPath, Exec selfPath])
                  \<and> filter isRename (snd (TrySelfUpdate L h)) = [Mv selfPath backup]
                  \<and> filter isCopy (snd (TrySelfUpdate L h)) = [Cp newPath selfPath]))
    \<and> (plainWord selfPath \<and> plainWord newPath
        \<longrightarrow> length (filter isRename (snd (TrySelfUpdate L h))) \<le> 1
          \<and> length (filter isCopy (snd (TrySelfUpdate L h))) \<le> 1)"
proof -
  have absent: "\<not> file_IsExist h newPath \<Longrightarrow> TrySelfUpdate L h = (Return (Ok ()), [])"
    using exe np by (simp add: TrySelfUpdate_def Let_def)
  have same: "TrySelfUpdate L h = (Return (Ok ()), [])"
    if "os_Open h selfPath = None" "io_Copy h selfPath = Inr selfBytes"
       "os_Open h newPath = None" "io_Copy h newPath = Inr newBytes"
       "Sum256 L selfBytes = Sum256 L newBytes"
    using exe np that by (simp add: TrySelfUpdate_def Let_def)
  have differ: "TrySelfUpdate L h =
                  (if syscall_Exec h then NewImage else Return (Err CantDoExec),
                   (if test_f h backup then [Rm backup] else [])
                   @ [Mv selfPath backup, Cp newPath selfPath, Exec selfPath])
                \<and> filter isRename (snd (TrySelfUpdate L h)) = [Mv selfPath backup]
                \<and> filter isCopy (snd (TrySelfUpdate L h)) = [Cp newPath selfPath]"
    if r: "os_Open h selfPath = None" "io_Copy h selfPath = Inr selfBytes"
       "os_Open h newPath = None" "io_Copy h newPath = Inr newBytes"
       and d: "cfg_SelfUpdate h" "file_IsExist h newPath"
       "Sum256 L selfBytes \<noteq> Sum256 L newBytes"
       and pw: "plainWord selfPath" "plainWord newPath"
       and sc: "test_f h newPath" "test_f h backup \<longrightarrow> rm_f h" "mv h" "cp_a h"
  proof -
    have pb: "plainWord backup" unfolding bk using pw(1) by (rule plainWord_backup)
    have sw: "swapScript h selfPath backup newPath
                = (True, (if test_f h backup then [Rm backup] else [])
                         @ [Mv selfPath backup, Cp newPath selfPath])"
      using pw(1) pb pw(2) sc by (rule swapScript_complete)
    have "TrySelfUpdate L h =
            (if syscall_Exec h then NewImage else Return (Err CantDoExec),
             (if test_f h backup then [Rm backup] else [])
             @ [Mv selfPath backup, Cp newPath selfPath, Exec selfPath])"
      using exe np bk r d sw by (simp add: TrySelfUpdate_def Let_def)
    then show ?thesis by simp
  qed
  have counts: "length (filter isRename (snd (TrySelfUpdate L h))) \<le> 1
                \<and> length (filter isCopy (snd (TrySelfUpdate L h))) \<le> 1"
    if pw: "plainWord selfPath" "plainWord newPath"
  proof -
    have "length (filter isRename (snd (swapScript h selfPath
                     (selfPath @ ''.'' @ EncodeToString bs) newPath))) \<le> 1
          \<and> length (filter isCopy (snd (swapScript h selfPath
                     (selfPath @ ''.'' @ EncodeToString bs) newPath))) \<le> 1" for bs
      using pw(1) plainWord_backup [OF pw(1)] pw(2) by (rule swapScript_counts)
    then show ?thesis using TrySelfUpdate_ops [OF exe, of L] np by fastforce
  qed
  from absent same differ counts show ?thesis by blast
qed

theorem self_update_swaps_once_witness:
  "osext_Executable ex_host = Inr ''/usr/bin/satori-agent''
   \<and> \<not> file_IsExist (ex_host\<lparr>file_IsExist := (\<lambda>_. False)\<rparr>) ''/opt/satori/plugin/satori-agent''
   \<and> TrySelfUpdate ex_lib (ex_host\<lparr>file_IsExist := (\<lambda>_. False)\<rparr>) = (Return (Ok ()), [])
   \<and> Sum256 ex_lib [1] = Sum256 ex_lib [1]
   \<and> TrySelfUpdate ex_lib (ex_host\<lparr>io_Copy := (\<lambda>_. Inr [1])\<rparr>) = (Return (Ok ()), [])
   \<and> Sum256 ex_lib [1] \<noteq> Sum256 ex_lib [2]
   \<and> plainWord ''/usr/bin/satori-agent'' \<and> plainWord ''/opt/satori/plugin/satori-agent''
   \<and> test_f ex_host ''/opt/satori/plugin/satori-agent'' \<and> mv ex_host \<and> cp_a ex_host
   \<and> TrySelfUpdate ex_lib ex_host
       = (NewImage, [Mv ''/usr/bin/satori-agent'' ''/usr/bin/satori-agent.01'',
                     Cp ''/opt/satori/plugin/satori-agent'' ''/usr/bin/satori-agent'',
                     Exec ''/usr/bin/satori-agent''])
   \<and> length (filter isRename (snd (TrySelfUpdate ex_lib (ex_host\<lparr>cp_a := False\<rparr>)))) \<le> 1
   \<and> length (filter isCopy (snd (TrySelfUpdate ex_lib (ex_host\<lparr>cp_a := False\<rparr>)))) \<le> 1"
proof -
  let ?self = "''/usr/bin/satori-agent''" and ?new = "''/opt/satori/plugin/satori-agent''"
  let ?bak = "''/usr/bin/satori-agent.01''"
  let ?absent = "ex_host\<lparr>file_IsExist := (\<lambda>_. False)\<rparr>"
  let ?same = "ex_host\<lparr>io_Copy := (\<lambda>_. Inr [1])\<rparr>"
  let ?nocp = "ex_host\<lparr>cp_a := False\<rparr>"
  have bk: "?bak = ?self @ ''.'' @ EncodeToString (Sum256 ex_lib [1])"
    by code_simp
  have e: "Sum256 ex_lib [1] = Sum256 ex_lib [1]" by simp
  have d: "Sum256 ex_lib [1] \<noteq> Sum256 ex_lib [2]" by (simp add: ex_lib_def)
  have pw: "plainWord ?self \<and> plainWord ?new" by code_simp
  have exe1: "osext_Executable ?absent = Inr ?self" by (simp add: ex_host_def)
  have np1: "?new = Join ex_lib (cfg_PluginCheckoutPath ?absent) ''satori-agent''"
    by (simp add: ex_host_def ex_lib_def)
  have a1: "\<not> file_IsExist ?absent ?new" by simp
  have c1: "TrySelfUpdate ex_lib ?absent = (Return (Ok ()), [])"
    using self_update_swaps_once [OF exe1 np1 bk] a1 by blast
  have exe2: "osext_Executable ?same = Inr ?self" by (simp add: ex_host_def)
  have np2: "?new = Join ex_lib (cfg_PluginCheckoutPath ?same) ''satori-agent''"
    by (simp add: ex_host_def ex_lib_def)
  have r2: "os_Open ?same ?self = None \<and> io_Copy ?same ?self = Inr [1]
            \<and> os_Open ?same ?new = None \<and> io_Copy ?same ?new = Inr [1]"
    by (simp add: ex_host_def)
  have c2: "TrySelfUpdate ex_lib ?same = (Return (Ok ()), [])"
    using self_update_swaps_once [OF exe2 np2 bk, where newBytes = "[1]"] r2 by blast
  have exe3: "osext_Executable ex_host = Inr ?self" by (simp add: ex_host_def)
  have np3: "?new = Join ex_lib (cfg_PluginCheckoutPath ex_host) ''satori-agent''"
    by (simp add: ex_host_def ex_lib_def)
  have r3: "os_Open ex_host ?self = None \<and> io_Copy ex_host ?self = Inr [1]
            \<and> os_Open ex_host ?new = None \<and> io_Copy ex_host ?new = Inr [2]"
    by (simp add: ex_host_def)
  have s3: "cfg_SelfUpdate ex_host \<and> file_IsExist ex_host ?new \<and> test_f ex_host ?new
            \<and> (test_f ex_host ?bak \<longrightarrow> rm_f ex_host) \<and> mv ex_host \<and> cp_a ex_host"
    by (simp add: ex_host_def)
  have "TrySelfUpdate ex_lib ex_host =
          (if syscall_Exec ex_host then NewImage else Return (Err CantDoExec),
           (if test_f ex_host ?bak then [Rm ?bak] else [])
           @ [Mv ?self ?bak, Cp ?new ?self, Exec ?self])"
    using self_update_swaps_once [OF exe3 np3 bk, where newBytes = "[2]"] r3 s3 d pw by blast
  moreover have "syscall_Exec ex_host \<and> \<not> test_f ex_host ?bak" by (simp add: ex_host_def)
  ultimately have c3: "TrySelfUpdate ex_lib ex_host
                         = (NewImage, [Mv ?self ?bak, Cp ?new ?self, Exec ?self])"
    by simp
  have exe4: "osext_Executable ?nocp = Inr ?self" by (simp add: ex_host_def)
  have np4: "?new = Join ex_lib (cfg_PluginCheckoutPath ?nocp) ''satori-agent''"
    by (simp add: ex_host_def ex_lib_def)
  have c4: "length (filter isRename (snd (TrySelfUpdate ex_lib ?nocp))) \<le> 1
            \<and> length (filter isCopy (snd (TrySelfUpdate ex_lib ?nocp))) \<le> 1"
    using self_update_swaps_once [OF exe4 np4 bk] pw by blast
  have t3: "test_f ex_host ?new \<and> mv ex_host \<and> cp_a ex_host" using s3 by simp
  from exe3 a1 c1 e c2 d pw t3 c3 c4 show ?thesis by (intro conjI) (elim conjE, assumption)+
qed

end
